theory Spec2Isabelle
  imports Complex_Main
begin

section \<open>The early-stopping controller of the DNN notebook\<close>

text \<open>
  The notebook's \<^verbatim>\<open>EarlyStopping\<close> class tracks the validation loss over the epochs of
  a training run, saves the model whenever the loss is a new best, and raises the flag
  \<^verbatim>\<open>early_stop\<close> once the loss has not improved for \<^verbatim>\<open>patience\<close> calls.
\<close>

subsection \<open>Python floats\<close>

text \<open>
  A loss, \<^verbatim>\<open>delta\<close>, \<^verbatim>\<open>best_score\<close> and \<^verbatim>\<open>val_loss_min\<close> are Python floats: IEEE
  binary64 values. A float is NaN, an infinity, or a finite value; the two zeros compare
  equal and are one value here. The class negates floats, compares them with \<^verbatim>\<open><\<close> and
  adds them.
\<close>

datatype pyfloat = NaN | NegInf | Fin real | PosInf

fun fneg :: "pyfloat \<Rightarrow> pyfloat" where
  "fneg NaN = NaN"
| "fneg NegInf = PosInf"
| "fneg (Fin x) = Fin (- x)"
| "fneg PosInf = NegInf"

text \<open>\<^verbatim>\<open>a < b\<close> and \<^verbatim>\<open>a <= b\<close> on floats: false whenever an operand is NaN.\<close>

fun flt :: "pyfloat \<Rightarrow> pyfloat \<Rightarrow> bool" where
  "flt NaN _ = False"
| "flt _ NaN = False"
| "flt _ NegInf = False"
| "flt PosInf _ = False"
| "flt NegInf _ = True"
| "flt (Fin x) (Fin y) = (x < y)"
| "flt (Fin x) PosInf = True"

fun fle :: "pyfloat \<Rightarrow> pyfloat \<Rightarrow> bool" where
  "fle NaN _ = False"
| "fle _ NaN = False"
| "fle NegInf _ = True"
| "fle _ PosInf = True"
| "fle PosInf _ = False"
| "fle (Fin x) (Fin y) = (x \<le> y)"
| "fle (Fin x) NegInf = False"

text \<open>
  Rounding of a real number to binary64, to nearest with ties to even: \<open>rne\<close> rounds to
  an integer; \<open>expo\<close> is the binary exponent, held at -1022 for subnormal numbers;
  \<open>ulp\<close> is the spacing of the floats at that exponent (52 fraction bits); a result of
  magnitude \<open>2 ^ 1024\<close> overflows to an infinity.
\<close>

definition rne :: "real \<Rightarrow> int" where
  "rne t =
     (let f = \<lfloor>t\<rfloor> in
      if t - of_int f < 1 / 2 then f
      else if 1 / 2 < t - of_int f then f + 1
      else if even f then f else f + 1)"

definition expo :: "real \<Rightarrow> int" where
  "expo x = max \<lfloor>log 2 \<bar>x\<bar>\<rfloor> (- 1022)"

definition ulp :: "real \<Rightarrow> real" where
  "ulp x = 2 powr of_int (expo x) / 2 ^ 52"

definition rnd :: "real \<Rightarrow> real" where
  "rnd x = of_int (rne (x / ulp x)) * ulp x"

definition round64 :: "real \<Rightarrow> pyfloat" where
  "round64 x =
     (if 2 ^ 1024 \<le> rnd x then PosInf
      else if rnd x \<le> - (2 ^ 1024) then NegInf
      else Fin (rnd x))"

text \<open>\<^verbatim>\<open>a + b\<close> on floats: the exact sum of two finite values, rounded.\<close>

fun fadd :: "pyfloat \<Rightarrow> pyfloat \<Rightarrow> pyfloat" where
  "fadd NaN _ = NaN"
| "fadd _ NaN = NaN"
| "fadd PosInf NegInf = NaN"
| "fadd NegInf PosInf = NaN"
| "fadd PosInf _ = PosInf"
| "fadd _ PosInf = PosInf"
| "fadd NegInf _ = NegInf"
| "fadd _ NegInf = NegInf"
| "fadd (Fin x) (Fin y) = round64 (x + y)"

text \<open>
  \<open>Fin x\<close> is a float only when \<open>x\<close> is a binary64 value, that is, when rounding leaves
  it as it is. The losses a caller can pass satisfy this.
\<close>

fun is_float :: "pyfloat \<Rightarrow> bool" where
  "is_float (Fin x) = (round64 x = Fin x)"
| "is_float _ = True"

text \<open>The binary64 values of the literals \<^verbatim>\<open>0.6\<close>, \<^verbatim>\<open>0.4\<close> and \<^verbatim>\<open>0.3\<close>.\<close>

definition lit_0_6 :: real where
  "lit_0_6 = 5404319552844595 / 2 ^ 53"

definition lit_0_4 :: real where
  "lit_0_4 = 3602879701896397 / 2 ^ 53"

definition lit_0_3 :: real where
  "lit_0_3 = 5404319552844595 / 2 ^ 54"

subsection \<open>The controller and its surroundings\<close>

text \<open>The attributes \<^verbatim>\<open>__init__\<close> sets, but for the callback \<^verbatim>\<open>trace_func\<close>, whose calls
  are recorded in the world below. \<^verbatim>\<open>patience\<close> and \<^verbatim>\<open>counter\<close> are Python integers.\<close>

record EarlyStopping =
  patience :: int
  verbose :: bool
  counter :: int
  best_score :: "pyfloat option"
  early_stop :: bool
  val_loss_min :: pyfloat
  delta :: pyfloat
  path :: string

text \<open>The two messages the class hands to \<^verbatim>\<open>trace_func\<close>, with the values they format.\<close>

datatype trace_msg =
  Counter_msg int int
| Saving_msg pyfloat pyfloat

text \<open>The exception that leaves \<^verbatim>\<open>torch.save\<close> when the snapshot cannot be written.\<close>

datatype error = SaveError

text \<open>
  What the class does outside its own attributes: \<^verbatim>\<open>torch.save(model.state_dict(), path)\<close>
  writes a snapshot of the model to a path, or raises; \<^verbatim>\<open>trace_func\<close> prints a message.
  The world keeps both as logs, newest entry first. An entry of \<open>writes\<close> is one call of
  \<^verbatim>\<open>torch.save\<close>: the path, the snapshot, and whether the call completed. Whether the
  \<open>n\<close>-th call of \<^verbatim>\<open>torch.save\<close> (counted from 0) raises is for the surroundings to
  decide: \<open>save_raises\<close>. The snapshot type \<open>'m\<close> is opaque.
\<close>

record 'm world =
  writes :: "(string \<times> 'm \<times> bool) list"
  printed :: "trace_msg list"
  save_raises :: "nat \<Rightarrow> bool"

definition torch_save :: "'m \<Rightarrow> string \<Rightarrow> 'm world \<Rightarrow> error option \<times> 'm world" where
  "torch_save snapshot p w =
     (if save_raises w (length (writes w))
      then (Some SaveError, w\<lparr>writes := (p, snapshot, False) # writes w\<rparr>)
      else (None, w\<lparr>writes := (p, snapshot, True) # writes w\<rparr>))"

definition trace_func :: "trace_msg \<Rightarrow> 'm world \<Rightarrow> 'm world" where
  "trace_func msg w = w\<lparr>printed := msg # printed w\<rparr>"

text \<open>The snapshot of the newest completed save to a path: what the file holds, unless a
  later save to it was cut short.\<close>

definition checkpoint :: "'m world \<Rightarrow> string \<Rightarrow> 'm option" where
  "checkpoint w p =
     map_of (map (\<lambda>(q, snapshot, ok). (q, snapshot)) (filter (\<lambda>(q, snapshot, ok). ok) (writes w))) p"

text \<open>A world in which nothing was saved or printed yet.\<close>

definition fresh_world :: "(nat \<Rightarrow> bool) \<Rightarrow> 'm world" where
  "fresh_world raises = \<lparr>writes = [], printed = [], save_raises = raises\<rparr>"

subsection \<open>Operations\<close>

text \<open>\<^verbatim>\<open>__init__(self, patience, verbose, delta, path, trace_func)\<close>: no argument is checked.
  The default \<^verbatim>\<open>delta=0\<close> is the float 0 once it is added to a score.\<close>

definition init :: "int \<Rightarrow> bool \<Rightarrow> pyfloat \<Rightarrow> string \<Rightarrow> EarlyStopping" where
  "init patience0 verbose0 delta0 path0 =
     \<lparr>patience = patience0, verbose = verbose0, counter = 0, best_score = None,
      early_stop = False, val_loss_min = PosInf, delta = delta0, path = path0\<rparr>"

text \<open>
  \<^verbatim>\<open>save_checkpoint(self, val_loss, model)\<close>. An operation returns the exception that
  left it, if any, and the controller and world as they are then: an exception of
  \<^verbatim>\<open>torch.save\<close> skips the assignment to \<^verbatim>\<open>val_loss_min\<close>.
\<close>

definition save_checkpoint ::
    "pyfloat \<Rightarrow> 'm \<Rightarrow> EarlyStopping \<times> 'm world \<Rightarrow> error option \<times> EarlyStopping \<times> 'm world" where
  "save_checkpoint val_loss model sw =
     (case sw of (s, w) \<Rightarrow>
        let w1 = (if verbose s then trace_func (Saving_msg (val_loss_min s) val_loss) w else w)
        in (case torch_save model (path s) w1 of
              (Some e, w2) \<Rightarrow> (Some e, s, w2)
            | (None, w2) \<Rightarrow> (None, s\<lparr>val_loss_min := val_loss\<rparr>, w2)))"

text \<open>
  \<^verbatim>\<open>__call__(self, val_loss, model)\<close>, branch by branch. In the last branch an exception
  of \<^verbatim>\<open>save_checkpoint\<close> leaves the call after \<^verbatim>\<open>best_score\<close> was assigned and before
  the counter is reset.
\<close>

definition call ::
    "pyfloat \<Rightarrow> 'm \<Rightarrow> EarlyStopping \<times> 'm world \<Rightarrow> error option \<times> EarlyStopping \<times> 'm world" where
  "call val_loss model sw =
     (case sw of (s, w) \<Rightarrow>
        let score = fneg val_loss in
        (case best_score s of
           None \<Rightarrow> save_checkpoint val_loss model (s\<lparr>best_score := Some score\<rparr>, w)
         | Some best \<Rightarrow>
             if flt score (fadd best (delta s)) then
               let s1 = s\<lparr>counter := counter s + 1\<rparr>;
                   w1 = trace_func (Counter_msg (counter s1) (patience s1)) w
               in (None, if patience s1 \<le> counter s1 then s1\<lparr>early_stop := True\<rparr> else s1, w1)
             else
               (case save_checkpoint val_loss model (s\<lparr>best_score := Some score\<rparr>, w) of
                  (Some e, sw2) \<Rightarrow> (Some e, sw2)
                | (None, s2, w2) \<Rightarrow> (None, s2\<lparr>counter := 0\<rparr>, w2))))"

text \<open>The controller and the world after a call, whether it returned or raised.\<close>

definition step :: "pyfloat \<Rightarrow> 'm \<Rightarrow> EarlyStopping \<times> 'm world \<Rightarrow> EarlyStopping \<times> 'm world" where
  "step val_loss model sw = snd (call val_loss model sw)"

subsection \<open>Sequences of calls\<close>

text \<open>
  The controller and the world after a sequence of calls, one per epoch. The caller goes
  on after a call that raised; a caller that ends the run there, as the notebook's
  \<^verbatim>\<open>trainer\<close> does, makes the runs that have no call after a raising one.
\<close>

fun run :: "(pyfloat \<times> 'm) list \<Rightarrow> EarlyStopping \<times> 'm world \<Rightarrow> EarlyStopping \<times> 'm world" where
  "run [] sw = sw"
| "run ((val_loss, model) # rest) sw = run rest (step val_loss model sw)"

text \<open>The controller and the world after each call of the sequence, in order.\<close>

fun history ::
    "(pyfloat \<times> 'm) list \<Rightarrow> EarlyStopping \<times> 'm world \<Rightarrow> (EarlyStopping \<times> 'm world) list" where
  "history [] sw = []"
| "history ((val_loss, model) # rest) sw =
     step val_loss model sw # history rest (step val_loss model sw)"

text \<open>How often one call invokes \<^verbatim>\<open>torch.save\<close>: the growth of the log of writes.\<close>

definition persists :: "pyfloat \<Rightarrow> 'm \<Rightarrow> EarlyStopping \<times> 'm world \<Rightarrow> int" where
  "persists val_loss model sw =
     int (length (writes (snd (step val_loss model sw)))) - int (length (writes (snd sw)))"



subsection \<open>What holds of a controller in use\<close>



section \<open>Rounding to binary64\<close>

lemma rne_of_int [simp]: "rne (of_int n) = n"
  by (simp add: rne_def)




lemma rne_neg: "rne (- t) = - rne t"
proof (cases "t = of_int \<lfloor>t\<rfloor>")
  case True
  then have "rne t = \<lfloor>t\<rfloor>" by (metis rne_of_int)
  moreover from True have "- t = of_int (- \<lfloor>t\<rfloor>)" by simp
  then have "rne (- t) = - \<lfloor>t\<rfloor>" by (metis rne_of_int)
  ultimately show ?thesis by simp
next
  case False
  then have nz: "t - of_int \<lfloor>t\<rfloor> \<noteq> 0" by simp
  have lo: "0 \<le> t - of_int \<lfloor>t\<rfloor>" and hi: "t - of_int \<lfloor>t\<rfloor> < 1" by linarith+
  have lt: "of_int \<lfloor>t\<rfloor> < t"
    using False of_int_floor_le [of t] by (metis less_le)
  have fl: "\<lfloor>- t\<rfloor> = - \<lfloor>t\<rfloor> - 1"
    using lt hi by (intro floor_unique) auto
  show ?thesis
    using nz lo hi lt by (auto simp: rne_def Let_def fl)
qed

lemma ulp_pos: "0 < ulp x"
  by (simp add: ulp_def)

lemma expo_neg [simp]: "expo (- x) = expo x"
  by (simp add: expo_def)

lemma ulp_neg [simp]: "ulp (- x) = ulp x"
  by (simp add: ulp_def)

lemma rnd_neg: "rnd (- x) = - rnd x"
  by (simp add: rnd_def rne_neg)

lemma rne_0 [simp]: "rne 0 = 0"
  using rne_of_int [of 0] by simp

lemma rnd_0 [simp]: "rnd 0 = 0"
  by (simp add: rnd_def)










lemma round64_neg: "round64 (- x) = fneg (round64 x)"
  using rnd_neg [of x] by (auto simp: round64_def)

lemma round64_dyadic:
  assumes "\<bar>m\<bar> < 2 ^ 53" and "- 1074 \<le> k" and "k \<le> 971"
  shows "round64 (of_int m * 2 powr of_int k) = Fin (of_int m * 2 powr of_int k)"
proof (cases "m = 0")
  case True
  then show ?thesis by (simp add: round64_def)
next
  case False
  define x :: real where "x = of_int m * 2 powr of_int k"
  have xnz: "x \<noteq> 0" using False by (simp add: x_def)
  have ax: "\<bar>x\<bar> = of_int \<bar>m\<bar> * 2 powr of_int k"
    by (simp add: x_def abs_mult)
  have "of_int \<bar>m\<bar> < (of_int (2 ^ 53) :: real)"
    using assms(1) by (simp only: of_int_less_iff)
  then have m53: "of_int \<bar>m\<bar> < (2 ^ 53 :: real)" by simp
  have lt: "\<bar>x\<bar> < 2 powr of_int (k + 53)"
  proof -
    have "\<bar>x\<bar> < 2 ^ 53 * 2 powr of_int k"
      unfolding ax using m53 by (intro mult_strict_right_mono) simp_all
    also have "\<dots> = 2 powr of_int (k + 53)"
      by (simp add: powr_add)
    finally show ?thesis .
  qed
  have e_le: "expo x \<le> k + 52"
  proof -
    have "2 powr of_int \<lfloor>log 2 \<bar>x\<bar>\<rfloor> \<le> \<bar>x\<bar>"
      using floor_log_eq_powr_iff [of "\<bar>x\<bar>" 2 "\<lfloor>log 2 \<bar>x\<bar>\<rfloor>"] xnz by simp
    with lt have "(2::real) powr of_int \<lfloor>log 2 \<bar>x\<bar>\<rfloor> < 2 powr of_int (k + 53)"
      by linarith
    then have "\<lfloor>log 2 \<bar>x\<bar>\<rfloor> < k + 53"
      by (simp only: powr_less_cancel_iff one_less_numeral_iff semiring_norm of_int_less_iff)
    with assms(2) show ?thesis by (simp add: expo_def)
  qed
  define j where "j = nat (k + 52 - expo x)"
  have j: "int j = k + 52 - expo x" using e_le by (simp add: j_def)
  have "(2::real) ^ j = 2 powr of_int (int j)"
    by (simp add: powr_realpow)
  also have "\<dots> = 2 powr of_int k * 2 ^ 52 / 2 powr of_int (expo x)"
    unfolding j by (simp add: powr_add powr_diff)
  finally have pj: "(2::real) ^ j = 2 powr of_int k * 2 ^ 52 / 2 powr of_int (expo x)" .
  have q: "x / ulp x = of_int (m * 2 ^ j)"
    by (simp add: x_def ulp_def pj)
  have "rnd x = of_int (m * 2 ^ j) * ulp x"
    unfolding rnd_def q by (simp only: rne_of_int)
  also have "\<dots> = x"
    using q ulp_pos [of x] by (metis nonzero_divide_eq_eq less_irrefl)
  finally have r: "rnd x = x" .
  have "\<bar>x\<bar> < 2 powr of_int (k + 53)" by (rule lt)
  also have "\<dots> \<le> 2 powr of_int 1024"
    using assms(3) by (simp only: powr_le_cancel_iff one_less_numeral_iff semiring_norm of_int_le_iff)
  also have "\<dots> = 2 ^ 1024" by simp
  finally have "\<bar>x\<bar> < 2 ^ 1024" .
  then have "\<not> 2 ^ 1024 \<le> x" and "\<not> x \<le> - (2 ^ 1024)" by linarith+
  then show ?thesis
    unfolding x_def [symmetric] by (simp add: round64_def r)
qed

lemma round64_not_NaN [simp]: "round64 x \<noteq> NaN"
  by (simp add: round64_def)

lemma round64_int: "\<bar>m\<bar> < 2 ^ 53 \<Longrightarrow> round64 (of_int m) = Fin (of_int m)"
  using round64_dyadic [of m 0] by simp

lemma round64_ratio:
  assumes "\<bar>m\<bar> < 2 ^ 53" and "n \<le> 1074"
  shows "round64 (of_int m / 2 ^ n) = Fin (of_int m / 2 ^ n)"
proof -
  have "(2::real) powr of_int (- int n) = 1 / 2 ^ n"
    by (simp add: powr_minus powr_realpow divide_inverse)
  then show ?thesis
    using round64_dyadic [of m "- int n"] assms by simp
qed

text \<open>The values the concrete runs below compute with are binary64 values.\<close>

lemma round64_numeral:
  "numeral n < (2 ^ 53 :: int) \<Longrightarrow> round64 (numeral n) = Fin (numeral n)"
  "numeral n < (2 ^ 53 :: int) \<Longrightarrow> round64 (- numeral n) = Fin (- numeral n)"
  using round64_int [of "numeral n"] round64_int [of "- numeral n"] by simp_all

lemma round64_examples:
  "round64 0 = Fin 0" "round64 1 = Fin 1" "round64 (- 1) = Fin (- 1)"
  "round64 (1 / 2) = Fin (1 / 2)" "round64 (- (1 / 2)) = Fin (- (1 / 2))"
  "round64 (3 / 4) = Fin (3 / 4)" "round64 (- (3 / 4)) = Fin (- (3 / 4))"
  using round64_int [of 0] round64_int [of 1] round64_int [of "- 1"]
    round64_ratio [of 1 1] round64_ratio [of "- 1" 1]
    round64_ratio [of 3 2] round64_ratio [of "- 3" 2]
  by simp_all

lemma round64_literals:
  "round64 (- lit_0_4) = Fin (- lit_0_4)" "round64 (- lit_0_3) = Fin (- lit_0_3)"
  "round64 (- lit_0_6) = Fin (- lit_0_6)"
  using round64_ratio [of "- 3602879701896397" 53] round64_ratio [of "- 5404319552844595" 54]
    round64_ratio [of "- 5404319552844595" 53]
  by (simp_all add: lit_0_4_def lit_0_3_def lit_0_6_def)

lemma literals_order: "lit_0_3 < lit_0_4" "lit_0_4 < 1 / 2" "1 / 2 < lit_0_6"
  by (simp_all add: lit_0_4_def lit_0_3_def lit_0_6_def)

text \<open>
  The sum of two floats is rounded: \<^verbatim>\<open>-1.0 + 2**-54\<close> lies halfway between the floats
  \<^verbatim>\<open>-1.0\<close> and \<^verbatim>\<open>-1.0 + 2**-53\<close>, and the tie goes to \<^verbatim>\<open>-1.0\<close>.
\<close>

lemma expo_below_one:
  assumes "1 / 2 \<le> \<bar>x\<bar>" and "\<bar>x\<bar> < 1"
  shows "expo x = - 1"
proof -
  have p1: "(2::real) powr of_int (- 1) = 1 / 2"
    by (simp add: powr_minus_divide)
  have p2: "(2::real) powr (of_int (- 1) + 1) = 1"
    by simp
  have pos: "0 < \<bar>x\<bar>" using assms(1) by linarith
  have "\<lfloor>log 2 \<bar>x\<bar>\<rfloor> = - 1"
    using floor_log_eq_powr_iff [of "\<bar>x\<bar>" 2 "- 1"] pos assms
    unfolding p1 p2 by simp
  then show ?thesis by (simp add: expo_def)
qed

lemma tiny_delta_is_absorbed: "fadd (Fin (- 1)) (Fin (1 / 2 ^ 54)) = Fin (- 1)"
proof -
  define x :: real where "x = - 1 + 1 / 2 ^ 54"
  have e: "expo x = - 1"
    by (rule expo_below_one) (simp_all add: x_def)
  have "(2::real) powr of_int (- 1) = 1 / 2"
    by (simp add: powr_minus_divide)
  then have u: "ulp x = 1 / 2 ^ 53"
    unfolding ulp_def e by simp
  have q: "x / ulp x = - (2 ^ 53) + 1 / 2"
    unfolding u by (simp add: x_def)
  have "rne (x / ulp x) = - (2 ^ 53)"
    unfolding q by (simp add: rne_def)
  then have "rnd x = - 1"
    unfolding rnd_def u by simp
  then have "round64 x = Fin (- 1)"
    by (simp add: round64_def)
  then show ?thesis
    by (simp add: x_def)
qed

section \<open>Order and addition of floats\<close>



lemma fle_not_NaN: "fle x y \<Longrightarrow> x \<noteq> NaN \<and> y \<noteq> NaN"
  by (cases x; cases y) simp_all


lemma fle_flt_trans: "fle x y \<Longrightarrow> flt y z \<Longrightarrow> flt x z"
  by (cases x; cases y; cases z) simp_all





lemma fneg_fneg [simp]: "fneg (fneg x) = x"
  by (cases x) simp_all

lemma fneg_NaN_iff [simp]: "fneg x = NaN \<longleftrightarrow> x = NaN"
  by (cases x) simp_all

lemma is_float_fneg [simp]: "is_float (fneg x) = is_float x"
proof (cases x)
  case (Fin r)
  have "round64 (- r) = Fin (- r) \<longleftrightarrow> round64 r = Fin r"
    by (cases "round64 r") (simp_all add: round64_neg)
  with Fin show ?thesis by simp
qed simp_all






section \<open>The branches of a call\<close>

lemma writes_trace_func [simp]: "writes (trace_func msg w) = writes w"
  by (simp add: trace_func_def)

lemma save_raises_trace_func [simp]: "save_raises (trace_func msg w) = save_raises w"
  by (simp add: trace_func_def)

text \<open>The counting branch: the guard \<^verbatim>\<open>score < self.best_score + self.delta\<close> holds.\<close>

lemma call_counting:
  "best_score s = Some b \<Longrightarrow> flt (fneg v) (fadd b (delta s)) \<Longrightarrow>
   call v m (s, w) =
     (None,
      s\<lparr>counter := counter s + 1,
        early_stop := (early_stop s \<or> patience s \<le> counter s + 1)\<rparr>,
      trace_func (Counter_msg (counter s + 1) (patience s)) w)"
  by (cases "patience s \<le> counter s + 1") (simp_all add: call_def Let_def)

text \<open>The two saving branches, when \<^verbatim>\<open>torch.save\<close> completes and when it raises.\<close>

lemma call_first_ok:
  "best_score s = None \<Longrightarrow> \<not> save_raises w (length (writes w)) \<Longrightarrow>
   call v m (s, w) =
     (None,
      s\<lparr>best_score := Some (fneg v), val_loss_min := v\<rparr>,
      (if verbose s then trace_func (Saving_msg (val_loss_min s) v) w else w)
        \<lparr>writes := (path s, m, True) # writes w\<rparr>)"
  by (simp add: call_def save_checkpoint_def torch_save_def)

lemma call_first_raise:
  "best_score s = None \<Longrightarrow> save_raises w (length (writes w)) \<Longrightarrow>
   call v m (s, w) =
     (Some SaveError,
      s\<lparr>best_score := Some (fneg v)\<rparr>,
      (if verbose s then trace_func (Saving_msg (val_loss_min s) v) w else w)
        \<lparr>writes := (path s, m, False) # writes w\<rparr>)"
  by (simp add: call_def save_checkpoint_def torch_save_def)

lemma call_better_ok:
  "best_score s = Some b \<Longrightarrow> \<not> flt (fneg v) (fadd b (delta s)) \<Longrightarrow>
   \<not> save_raises w (length (writes w)) \<Longrightarrow>
   call v m (s, w) =
     (None,
      s\<lparr>best_score := Some (fneg v), val_loss_min := v, counter := 0\<rparr>,
      (if verbose s then trace_func (Saving_msg (val_loss_min s) v) w else w)
        \<lparr>writes := (path s, m, True) # writes w\<rparr>)"
  by (simp add: call_def save_checkpoint_def torch_save_def)

lemma call_better_raise:
  "best_score s = Some b \<Longrightarrow> \<not> flt (fneg v) (fadd b (delta s)) \<Longrightarrow>
   save_raises w (length (writes w)) \<Longrightarrow>
   call v m (s, w) =
     (Some SaveError,
      s\<lparr>best_score := Some (fneg v)\<rparr>,
      (if verbose s then trace_func (Saving_msg (val_loss_min s) v) w else w)
        \<lparr>writes := (path s, m, False) # writes w\<rparr>)"
  by (simp add: call_def save_checkpoint_def torch_save_def)

lemmas call_branch_eqs =
  call_counting call_first_ok call_first_raise call_better_ok call_better_raise

text \<open>Every call takes a saving branch or the counting branch.\<close>

lemma call_branches:
  "(case best_score s of None \<Rightarrow> True | Some b \<Rightarrow> \<not> flt (fneg v) (fadd b (delta s))) \<or>
   (\<exists>b. best_score s = Some b \<and> flt (fneg v) (fadd b (delta s)))"
  by (cases "best_score s") auto

text \<open>The saving branches and the counting branch, by what they leave behind.\<close>

lemma step_saving:
  assumes "case best_score s of None \<Rightarrow> True | Some b \<Rightarrow> \<not> flt (fneg v) (fadd b (delta s))"
  shows "best_score (fst (step v m (s, w))) = Some (fneg v)"
    and "early_stop (fst (step v m (s, w))) = early_stop s"
    and "persists v m (s, w) = 1"
    and "(fst (call v m (s, w)) = None) = (\<not> save_raises w (length (writes w)))"
    and "val_loss_min (fst (step v m (s, w))) =
           (if save_raises w (length (writes w)) then val_loss_min s else v)"
    and "counter (fst (step v m (s, w))) =
           (if save_raises w (length (writes w)) \<or> best_score s = None then counter s else 0)"
  using assms
  by (cases "best_score s"; cases "save_raises w (length (writes w))";
      simp add: step_def persists_def call_branch_eqs)+

lemma step_counting:
  assumes "best_score s = Some b" and "flt (fneg v) (fadd b (delta s))"
  shows "best_score (fst (step v m (s, w))) = Some b"
    and "val_loss_min (fst (step v m (s, w))) = val_loss_min s"
    and "counter (fst (step v m (s, w))) = counter s + 1"
    and "early_stop (fst (step v m (s, w))) = (early_stop s \<or> patience s \<le> counter s + 1)"
    and "persists v m (s, w) = 0"
    and "fst (call v m (s, w)) = None"
    and "writes (snd (step v m (s, w))) = writes w"
  using assms by (simp_all add: step_def persists_def call_counting)

text \<open>
  The guard compares with the rounded sum: with a \<^verbatim>\<open>delta\<close> of \<^verbatim>\<open>2**-54\<close> and the best
  loss 1.0, a second loss of 1.0 takes the saving branch, since \<^verbatim>\<open>-1.0 + delta\<close> is
  \<^verbatim>\<open>-1.0\<close>.
\<close>

lemma tiny_delta_tie_saves:
  "persists (Fin 1) 2
     (run [(Fin 1, 1::nat)] (init 7 False (Fin (1 / 2 ^ 54)) ''checkpoint.pt'',
        fresh_world (\<lambda>n. False))) = 1"
  using tiny_delta_is_absorbed
  by (simp add: step_def call_def save_checkpoint_def init_def torch_save_def trace_func_def
      persists_def fresh_world_def)

section \<open>What a call keeps, and the invariant of a run\<close>

lemma step_patience [simp]: "patience (fst (step v m sw)) = patience (fst sw)"
  by (cases sw)
    (simp add: step_def call_def save_checkpoint_def torch_save_def Let_def split: option.splits)

lemma step_delta [simp]: "delta (fst (step v m sw)) = delta (fst sw)"
  by (cases sw)
    (simp add: step_def call_def save_checkpoint_def torch_save_def Let_def split: option.splits)

lemma step_path [simp]: "path (fst (step v m sw)) = path (fst sw)"
  by (cases sw)
    (simp add: step_def call_def save_checkpoint_def torch_save_def Let_def split: option.splits)

lemma run_patience [simp]: "patience (fst (run xs sw)) = patience (fst sw)"
  by (induction xs sw rule: run.induct) simp_all

lemma run_delta [simp]: "delta (fst (run xs sw)) = delta (fst sw)"
  by (induction xs sw rule: run.induct) simp_all

lemma length_history [simp]: "length (history xs sw) = length xs"
  by (induction xs sw rule: history.induct) simp_all







text \<open>The definitions a concrete run is evaluated with.\<close>

lemmas eval_defs = step_def call_def save_checkpoint_def init_def torch_save_def trace_func_def
  persists_def checkpoint_def fresh_world_def round64_examples round64_numeral

section \<open>The counter stays below the patience until the flag is raised\<close>



section \<open>Strictly decreasing losses\<close>





section \<open>Strictly increasing losses\<close>





section \<open>Counter, flag and best score along a run\<close>




section \<open>When a call invokes the save\<close>




section \<open>Calls after the flag was raised\<close>




section \<open>Construction\<close>




section \<open>The recorded minimum loss\<close>










section \<open>A loss equal to the best loss\<close>

text \<open>
  Claim C1 says that, with \<^verbatim>\<open>delta\<close> 0, a loss equal to the best loss is no
  improvement: the counter is incremented and nothing is saved. The guard of the counting
  branch, \<^verbatim>\<open>score < self.best_score + self.delta\<close>, is strict, so an equal loss falls
  through to the saving branch. With the default patience 7 and the losses 0.5, 0.6, the
  counter is 1; a third call with 0.5 resets it to 0, saves and, when verbose, prints the
  message that the loss has decreased from 0.5 to 0.5.
\<close>

theorem equal_loss_takes_saving_branch:
  "counter (fst (run [(Fin (1 / 2), 1::nat), (Fin lit_0_6, 2)] (init 7 False (Fin 0) ''checkpoint.pt'', fresh_world (\<lambda>n. False)))) = 1 \<and>
   best_score (fst (run [(Fin (1 / 2), 1::nat), (Fin lit_0_6, 2)] (init 7 False (Fin 0) ''checkpoint.pt'', fresh_world (\<lambda>n. False)))) = Some (Fin (- (1 / 2))) \<and>
   counter (fst (step (Fin (1 / 2)) 3 (run [(Fin (1 / 2), 1::nat), (Fin lit_0_6, 2)] (init 7 False (Fin 0) ''checkpoint.pt'', fresh_world (\<lambda>n. False))))) = 0 \<and>
   best_score (fst (step (Fin (1 / 2)) 3 (run [(Fin (1 / 2), 1::nat), (Fin lit_0_6, 2)] (init 7 False (Fin 0) ''checkpoint.pt'', fresh_world (\<lambda>n. False))))) = Some (Fin (- (1 / 2))) \<and>
   persists (Fin (1 / 2)) 3 (run [(Fin (1 / 2), 1::nat), (Fin lit_0_6, 2)] (init 7 False (Fin 0) ''checkpoint.pt'', fresh_world (\<lambda>n. False))) = 1 \<and>
   fst (call (Fin (1 / 2)) 3 (run [(Fin (1 / 2), 1::nat), (Fin lit_0_6, 2)] (init 7 False (Fin 0) ''checkpoint.pt'', fresh_world (\<lambda>n. False)))) = None \<and>
   printed (snd (step (Fin (1 / 2)) 3 (run [(Fin (1 / 2), 1::nat), (Fin lit_0_6, 2)] (init 7 True (Fin 0) ''checkpoint.pt'', fresh_world (\<lambda>n. False)))))
    = [Saving_msg (Fin (1 / 2)) (Fin (1 / 2)), Counter_msg 1 7, Saving_msg PosInf (Fin (1 / 2))]"
  using literals_order by (simp add: eval_defs)

section \<open>The scenario with a repeated loss\<close>

text \<open>
  Claim C2 is the scenario with patience 2, \<^verbatim>\<open>delta\<close> 0 and the losses 0.5, 0.4, 0.3,
  0.3, 0.3, which the claim has stop at the fourth call. It does not: after the fourth
  call the flag is false.
\<close>

theorem scenario_not_stopped_at_fourth_call:
  "\<not> early_stop (fst (history [(Fin (1 / 2), 1::nat), (Fin lit_0_4, 2), (Fin lit_0_3, 3), (Fin lit_0_3, 4), (Fin lit_0_3, 5)] (init 2 False (Fin 0) ''checkpoint.pt'', fresh_world (\<lambda>n. False)) ! 3))"
  using literals_order by (simp add: eval_defs round64_literals)

text \<open>
  Claim C2, amended: for a fresh controller with patience 2 and \<^verbatim>\<open>delta\<close> 0 observing
  0.5, 0.4, 0.3 and then any fourth loss, \<^verbatim>\<open>early_stop\<close> is false after each of the
  first four calls. The first three losses decrease, so the fourth call is at most the
  first one that is no improvement, and the counter is below the patience after it.
\<close>

theorem scenario_fourth_call:
  "map (early_stop \<circ> fst)
     (history [(Fin (1 / 2), m1), (Fin lit_0_4, m2), (Fin lit_0_3, m3), (v, m4)]
        (init 2 vb (Fin 0) pa, w)) = [False, False, False, False] \<and>
   counter (fst (run [(Fin (1 / 2), m1), (Fin lit_0_4, m2), (Fin lit_0_3, m3), (v, m4)]
        (init 2 vb (Fin 0) pa, w))) < 2"
proof -
  define s0 where "s0 = init 2 vb (Fin 0) pa"
  obtain s1 w1 where c1: "step (Fin (1 / 2)) m1 (s0, w) = (s1, w1)"
    by (cases "step (Fin (1 / 2)) m1 (s0, w)")
  obtain s2 w2 where c2: "step (Fin lit_0_4) m2 (s1, w1) = (s2, w2)"
    by (cases "step (Fin lit_0_4) m2 (s1, w1)")
  obtain s3 w3 where c3: "step (Fin lit_0_3) m3 (s2, w2) = (s3, w3)"
    by (cases "step (Fin lit_0_3) m3 (s2, w2)")
  obtain s4 w4 where c4: "step v m4 (s3, w3) = (s4, w4)"
    by (cases "step v m4 (s3, w3)")
  have conf0: "patience s0 = 2" "delta s0 = Fin 0"
    by (simp_all add: s0_def init_def)
  have "patience s1 = patience s0" "delta s1 = delta s0"
    using step_patience [of "Fin (1 / 2)" m1 "(s0, w)"] step_delta [of "Fin (1 / 2)" m1 "(s0, w)"]
    by (simp_all add: c1)
  moreover have "patience s2 = patience s1" "delta s2 = delta s1"
    using step_patience [of "Fin lit_0_4" m2 "(s1, w1)"] step_delta [of "Fin lit_0_4" m2 "(s1, w1)"]
    by (simp_all add: c2)
  moreover have "patience s3 = patience s2" "delta s3 = delta s2"
    using step_patience [of "Fin lit_0_3" m3 "(s2, w2)"] step_delta [of "Fin lit_0_3" m3 "(s2, w2)"]
    by (simp_all add: c3)
  ultimately have conf: "patience s1 = 2" "delta s1 = Fin 0" "patience s2 = 2" "delta s2 = Fin 0"
    "patience s3 = 2" "delta s3 = Fin 0"
    using conf0 by simp_all
  have "case best_score s0 of None \<Rightarrow> True
        | Some b \<Rightarrow> \<not> flt (fneg (Fin (1 / 2))) (fadd b (delta s0))"
    by (simp add: s0_def init_def)
  note st1 = step_saving [OF this, of m1 w, unfolded c1 fst_conv]
  have a1: "best_score s1 = Some (Fin (- (1 / 2)))" "\<not> early_stop s1" "counter s1 = 0"
    using st1(1,2,6) by (simp_all add: s0_def init_def)
  have "case best_score s1 of None \<Rightarrow> True
        | Some b \<Rightarrow> \<not> flt (fneg (Fin lit_0_4)) (fadd b (delta s1))"
    using literals_order by (simp add: a1 conf round64_examples)
  note st2 = step_saving [OF this, of m2 w1, unfolded c2 fst_conv]
  have a2: "best_score s2 = Some (Fin (- lit_0_4))" "\<not> early_stop s2" "counter s2 = 0"
    using st2(1,2,6) a1 by (simp_all split: if_splits)
  have "case best_score s2 of None \<Rightarrow> True
        | Some b \<Rightarrow> \<not> flt (fneg (Fin lit_0_3)) (fadd b (delta s2))"
    using literals_order by (simp add: a2 conf round64_literals)
  note st3 = step_saving [OF this, of m3 w2, unfolded c3 fst_conv]
  have a3: "best_score s3 = Some (Fin (- lit_0_3))" "\<not> early_stop s3" "counter s3 = 0"
    using st3(1,2,6) a2 by (simp_all split: if_splits)
  have a4: "\<not> early_stop s4 \<and> counter s4 < 2"
    using call_branches [where s = s3 and v = v]
  proof
    assume saving: "case best_score s3 of None \<Rightarrow> True
        | Some b \<Rightarrow> \<not> flt (fneg v) (fadd b (delta s3))"
    note st4 = step_saving [OF saving, of m4 w3, unfolded c4 fst_conv]
    from st4(2,6) a3 show ?thesis by (simp split: if_splits)
  next
    assume "\<exists>b. best_score s3 = Some b \<and> flt (fneg v) (fadd b (delta s3))"
    then obtain b where b: "best_score s3 = Some b" and worse: "flt (fneg v) (fadd b (delta s3))"
      by blast
    note st4 = step_counting [OF b worse, of m4 w3, unfolded c4 fst_conv]
    from st4(3,4) a3 conf show ?thesis by simp
  qed
  from a1 a2 a3 a4 show ?thesis
    by (simp add: s0_def [symmetric] c1 c2 c3 c4)
qed

end
